theory Spec2Isabelle
  imports Main
begin

section \<open>The host document\<close>

text \<open>
  A content tree of the host document, as \<^verbatim>\<open>vim.ts\<close> sees it: text nodes and element
  nodes. The natural number is the identity of the node object, which is what
  \<^verbatim>\<open>isSameNode\<close>, \<^verbatim>\<open>addEventListener\<close> and \<^verbatim>\<open>removeEventListener\<close> go by.
\<close>

datatype node = TextNode nat string | ElementNode nat "node list"

fun node_id :: "node \<Rightarrow> nat" where
  "node_id (TextNode t s) = t"
| "node_id (ElementNode e cs) = e"

text \<open>\<^verbatim>\<open>node.nodeType === Node.ELEMENT_NODE\<close>\<close>

fun isElement :: "node \<Rightarrow> bool" where
  "isElement (TextNode t s) = False"
| "isElement (ElementNode e cs) = True"

text \<open>\<^verbatim>\<open>node.childNodes\<close>: a text node has none.\<close>

fun childNodes :: "node \<Rightarrow> node list" where
  "childNodes (TextNode t s) = []"
| "childNodes (ElementNode e cs) = cs"

text \<open>\<^verbatim>\<open>node.textContent\<close>: the text of a text node, the concatenation of the
  descendants' texts for an element.\<close>

fun textContent :: "node \<Rightarrow> string" where
  "textContent (TextNode t s) = s"
| "textContent (ElementNode e cs) = concat (map textContent cs)"

text \<open>\<^verbatim>\<open>element.innerText\<close> is the rendered text. For a surface made of text nodes and
  inline elements, which is all this tree type has, it is the text content.\<close>

definition innerText :: "node \<Rightarrow> string" where
  "innerText n = textContent n"

text \<open>The \<^verbatim>\<open>KeyboardEvent\<close>: the key, and the two flags that \<^verbatim>\<open>preventDefault\<close> and
  \<^verbatim>\<open>stopPropagation\<close> set.\<close>

record KeyboardEvent =
  key :: string
  defaultPrevented :: bool
  propagationStopped :: bool

definition preventDefault :: "KeyboardEvent \<Rightarrow> KeyboardEvent" where
  "preventDefault e = e\<lparr>defaultPrevented := True\<rparr>"

definition stopPropagation :: "KeyboardEvent \<Rightarrow> KeyboardEvent" where
  "stopPropagation e = e\<lparr>propagationStopped := True\<rparr>"

section \<open>The navigation state\<close>

datatype Mode = Normal | Insert

record TrackedLine =
  line_cursor_position :: nat
  element :: node

record vim_info =
  active_line :: int
  cursor_position :: nat
  lines :: "TrackedLine list"
  mode :: Mode

text \<open>
  Everything the engine reads or writes:
  \<^item> \<open>info\<close> is \<^verbatim>\<open>window.vim_info\<close>;
  \<^item> \<open>activeElement\<close> is \<^verbatim>\<open>document.activeElement\<close>, which the DOM types as
    \<^verbatim>\<open>Element | null\<close>;
  \<^item> \<open>selection\<close> is \<^verbatim>\<open>document.getSelection()\<close>: \<open>None\<close> when there is no selection
    or it has no range, otherwise the identity of the first range's start container and
    its start offset;
  \<^item> \<open>listeners\<close> holds the identities of the elements on which \<^verbatim>\<open>handleKeydown\<close> is
    subscribed to \<^verbatim>\<open>keydown\<close> (subscribing the same function twice is one
    subscription);
  \<^item> \<open>vim_mode\<close> is the \<^verbatim>\<open>innerText\<close> of the \<^verbatim>\<open>.vim-mode\<close> element, \<open>None\<close> when the
    document has no such element.
\<close>

record world =
  info :: vim_info
  activeElement :: "node option"
  selection :: "(nat \<times> nat) option"
  listeners :: "nat set"
  vim_mode :: "string option"

text \<open>Reading a property of \<^verbatim>\<open>null\<close> throws a \<^verbatim>\<open>TypeError\<close>.\<close>

datatype error = TypeError

definition getActiveLine :: "world \<Rightarrow> int" where
  "getActiveLine w = active_line (info w)"

definition getLines :: "world \<Rightarrow> TrackedLine list" where
  "getLines w = lines (info w)"

text \<open>\<^verbatim>\<open>lines[k]\<close>: \<^verbatim>\<open>undefined\<close> outside the array.\<close>

definition line_at :: "TrackedLine list \<Rightarrow> int \<Rightarrow> TrackedLine option" where
  "line_at ls k = (if 0 \<le> k \<and> k < int (length ls) then Some (ls ! nat k) else None)"

definition initVimInfo :: "world \<Rightarrow> world" where
  "initVimInfo w =
     w\<lparr>info := \<lparr>active_line = 0, cursor_position = 0, lines = [], mode = Normal\<rparr>\<rparr>"

section \<open>The cursor position model\<close>

text \<open>
  The loop of \<^verbatim>\<open>checkElementNode\<close> over the child nodes, from the counter \<open>i\<close>; \<open>sc\<close>
  and \<open>so\<close> are the range's start container and start offset. It returns what the call
  returns and the counter. An element child is walked recursively: when the walk finds
  the container the loop breaks and the function returns \<^verbatim>\<open>false\<close>, as the code after
  the loop does.
\<close>

fun checkElementNode_loop :: "nat \<Rightarrow> nat \<Rightarrow> node list \<Rightarrow> nat \<Rightarrow> bool \<times> nat" where
  "checkElementNode_loop sc so [] i = (False, i)"
| "checkElementNode_loop sc so (ElementNode e cs # ns) i =
     (case checkElementNode_loop sc so cs i of
        (True, i') \<Rightarrow> (False, i')
      | (False, i') \<Rightarrow> checkElementNode_loop sc so ns i')"
| "checkElementNode_loop sc so (TextNode t s # ns) i =
     (if t = sc then (True, i + so)
      else checkElementNode_loop sc so ns (i + length s))"

definition checkElementNode :: "nat \<Rightarrow> nat \<Rightarrow> node \<Rightarrow> nat \<Rightarrow> bool \<times> nat" where
  "checkElementNode sc so el i = checkElementNode_loop sc so (childNodes el) i"

definition getCursorIndex :: "world \<Rightarrow> error + nat" where
  "getCursorIndex w =
     (case selection w of
        None \<Rightarrow> Inr 0
      | Some (sc, so) \<Rightarrow>
          (case activeElement w of
             None \<Rightarrow> Inl TypeError
           | Some el \<Rightarrow> Inr (snd (checkElementNode sc so el 0))))"

text \<open>The loop of \<^verbatim>\<open>setCursorPosition\<close> over the child nodes, from the counter \<open>i\<close>.\<close>

fun setCursorPosition_loop :: "node list \<Rightarrow> nat \<Rightarrow> nat \<Rightarrow> world \<Rightarrow> world" where
  "setCursorPosition_loop [] index i w = w"
| "setCursorPosition_loop (ElementNode e cs # ns) index i w =
     (if index \<ge> i \<and> index \<le> i + length (textContent (ElementNode e cs))
      then setCursorPosition_loop cs (index - i) 0 w
      else setCursorPosition_loop ns index (i + length (textContent (ElementNode e cs))) w)"
| "setCursorPosition_loop (TextNode t s # ns) index i w =
     (if index \<ge> i \<and> index \<le> i + length s
      then w\<lparr>selection := Some (t, index - i)\<rparr>
      else setCursorPosition_loop ns index (i + length s) w)"

definition setCursorPosition :: "node option \<Rightarrow> nat \<Rightarrow> world \<Rightarrow> error + world" where
  "setCursorPosition el index w =
     (case el of
        None \<Rightarrow> Inl TypeError
      | Some n \<Rightarrow> Inr (setCursorPosition_loop (childNodes n) index 0 w))"

section \<open>The mode indicator\<close>

definition toUpperCase :: "string \<Rightarrow> string" where
  "toUpperCase s =
     map (\<lambda>c. if (97::nat) \<le> of_char c \<and> of_char c \<le> (122::nat)
              then char_of (of_char c - (32::nat)) else c) s"

fun mode_string :: "Mode \<Rightarrow> string" where
  "mode_string Normal = ''normal''"
| "mode_string Insert = ''insert''"

definition getModeText :: "Mode \<Rightarrow> string" where
  "getModeText m = ''-- '' @ toUpperCase (mode_string m) @ '' --''"

definition updateInfoContainer :: "world \<Rightarrow> world" where
  "updateInfoContainer w =
     (case vim_mode w of
        Some t \<Rightarrow> w\<lparr>vim_mode := Some (getModeText (mode (info w)))\<rparr>
      | None \<Rightarrow> w)"

section \<open>The line registry\<close>

text \<open>
  Modelled from the spec: what the host does on \<^verbatim>\<open>element.click()\<close>, which is not code
  of the engine. The spec (4.2 and 6) calls it the host's focus action, by which the core
  requests the host give keyboard focus to the surface: the clicked element becomes
  \<^verbatim>\<open>document.activeElement\<close>.
\<close>

definition click :: "node \<Rightarrow> world \<Rightarrow> world" where
  "click el w = w\<lparr>activeElement := Some el\<rparr>"

definition removeEventListener :: "node \<Rightarrow> world \<Rightarrow> world" where
  "removeEventListener el w = w\<lparr>listeners := listeners w - {node_id el}\<rparr>"

definition addEventListener :: "node \<Rightarrow> world \<Rightarrow> world" where
  "addEventListener el w = w\<lparr>listeners := insert (node_id el) (listeners w)\<rparr>"

definition setActiveLine :: "int \<Rightarrow> world \<Rightarrow> world" where
  "setActiveLine idx w =
     (let ls = lines (info w);
          active = getActiveLine w;
          i0 = (if idx \<ge> int (length ls) then int (length ls) - 1 else idx);
          i = (if i0 < 0 then 0 else i0);
          w1 = (case line_at ls active of
                  Some l \<Rightarrow> removeEventListener (element l) w
                | None \<Rightarrow> w)
      in case line_at ls i of
           Some l \<Rightarrow>
             (let w2 = addEventListener (element l) (click (element l) w1)
              in w2\<lparr>info := (info w2)\<lparr>active_line := i\<rparr>\<rparr>)
         | None \<Rightarrow> w1)"

definition setLines :: "node list \<Rightarrow> world \<Rightarrow> world" where
  "setLines f w =
     (let w1 = w\<lparr>info := (info w)
                  \<lparr>lines := map (\<lambda>elem. \<lparr>line_cursor_position = 0, element = elem\<rparr>) f\<rparr>\<rparr>
      in setActiveLine
           (if active_line (info w1) = 0 then 0 else active_line (info w1)) w1)"

section \<open>The motions\<close>

text \<open>
  Modelled from the spec: the constant \<^verbatim>\<open>whitespace\<close> of \<^verbatim>\<open>../constants\<close>, which is not
  among the sources. The spec calls it the shared whitespace character class test,
  applied character by character, the first match winning; so it is a parameter
  \<open>ws\<close> of the motions, the set of characters the class holds. \<^verbatim>\<open>search\<close> gives the index of
  the first character of the class, or -1; \<^verbatim>\<open>test\<close> says whether the string has one.
\<close>

fun search :: "(char \<Rightarrow> bool) \<Rightarrow> string \<Rightarrow> int" where
  "search ws [] = - 1"
| "search ws (c # cs) =
     (if ws c then 0 else (let r = search ws cs in if r < 0 then - 1 else r + 1))"

definition test :: "(char \<Rightarrow> bool) \<Rightarrow> string \<Rightarrow> bool" where
  "test ws s = (search ws s \<ge> 0)"

text \<open>\<^verbatim>\<open>text.slice(n)\<close> for a position \<open>n\<close> that is not negative.\<close>

definition slice :: "string \<Rightarrow> nat \<Rightarrow> string" where
  "slice s n = drop n s"

text \<open>\<^verbatim>\<open>text[0]\<close> as \<^verbatim>\<open>test\<close> reads it: \<^verbatim>\<open>undefined\<close> becomes the string
  \<^verbatim>\<open>"undefined"\<close>.\<close>

definition first_char :: "string \<Rightarrow> string" where
  "first_char s = (case s of [] \<Rightarrow> ''undefined'' | c # cs \<Rightarrow> [c])"

text \<open>The space character class that the examples use.\<close>

definition is_space :: "char \<Rightarrow> bool" where
  "is_space c = (c = CHR '' '' \<or> c = CHR 0x09 \<or> c = CHR 0x0A \<or> c = CHR 0x0D)"

function jumpToNextWORD ::
    "(char \<Rightarrow> bool) \<Rightarrow> node option \<Rightarrow> nat option \<Rightarrow> world \<Rightarrow> error + world" where
  "jumpToNextWORD ws node start_position w =
     (let active = getActiveLine w;
          ls = getLines w
      in case (case start_position of Some p \<Rightarrow> Inr p | None \<Rightarrow> getCursorIndex w) of
           Inl err \<Rightarrow> Inl err
         | Inr currentCursorPosition \<Rightarrow>
             (case (case node of Some n \<Rightarrow> Some n | None \<Rightarrow> activeElement w) of
                None \<Rightarrow> Inl TypeError
              | Some currentNode \<Rightarrow>
                  (let currentLineTextContent = innerText currentNode;
                       currentRemainingText = slice currentLineTextContent currentCursorPosition;
                       nextWhiteSpaceAfterCursor = search ws currentRemainingText;
                       nextWhiteSpaceIndex =
                         (if nextWhiteSpaceAfterCursor \<ge> 0
                          then currentCursorPosition + nat nextWhiteSpaceAfterCursor
                          else length currentLineTextContent)
                   in if nextWhiteSpaceIndex < length currentLineTextContent
                      then setCursorPosition (Some currentNode) (nextWhiteSpaceIndex + 1) w
                      else (case (if node = None then line_at ls (active + 1) else None) of
                              Some l \<Rightarrow>
                                (if test ws (first_char (innerText (element l)))
                                 then jumpToNextWORD ws (Some (element l)) (Some 0)
                                        (setActiveLine (active + 1) w)
                                 else setCursorPosition (Some (element l)) 0
                                        (setActiveLine (active + 1) w))
                            | None \<Rightarrow>
                                setCursorPosition (Some currentNode) nextWhiteSpaceIndex w))))"
  by pat_completeness auto
termination
  by (relation "measure (\<lambda>(ws, node, start_position, w). case node of None \<Rightarrow> 1 | Some n \<Rightarrow> 0)")
     (auto split: if_splits)

declare jumpToNextWORD.simps [simp del]

definition moveCursorBackwards :: "world \<Rightarrow> error + world" where
  "moveCursorBackwards w =
     (case getCursorIndex w of
        Inl err \<Rightarrow> Inl err
      | Inr currentCursorPosition \<Rightarrow>
          (if currentCursorPosition = 0 then Inr w
           else setCursorPosition (activeElement w) (currentCursorPosition - 1) w))"

definition moveCursorForwards :: "world \<Rightarrow> error + world" where
  "moveCursorForwards w =
     (case getCursorIndex w of
        Inl err \<Rightarrow> Inl err
      | Inr currentCursorPosition \<Rightarrow>
          (case activeElement w of
             None \<Rightarrow> Inl TypeError
           | Some el \<Rightarrow>
               (if currentCursorPosition \<ge> length (textContent el) then Inr w
                else setCursorPosition (activeElement w) (currentCursorPosition + 1) w)))"

section \<open>The key handlers\<close>

text \<open>
  A handler returns the event as it leaves it, and the world or the error thrown: the
  handlers call \<^verbatim>\<open>preventDefault\<close> before the action that can throw, so the event is
  updated even then.
\<close>

definition insertReducer :: "KeyboardEvent \<Rightarrow> world \<Rightarrow> KeyboardEvent \<times> (error + world)" where
  "insertReducer e w =
     (if key e = ''Escape''
      then (stopPropagation (preventDefault e),
            Inr (updateInfoContainer (w\<lparr>info := (info w)\<lparr>mode := Normal\<rparr>\<rparr>)))
      else (e, Inr w))"

definition normalReducer ::
    "(char \<Rightarrow> bool) \<Rightarrow> KeyboardEvent \<Rightarrow> world \<Rightarrow> KeyboardEvent \<times> (error + world)" where
  "normalReducer ws e w =
     (let active = active_line (info w)
      in if key e = ''a'' \<or> key e = ''i''
         then (preventDefault e,
               Inr (updateInfoContainer (w\<lparr>info := (info w)\<lparr>mode := Insert\<rparr>\<rparr>)))
         else if key e = ''h'' then (preventDefault e, moveCursorBackwards w)
         else if key e = ''j'' then (preventDefault e, Inr (setActiveLine (active + 1) w))
         else if key e = ''k'' then (preventDefault e, Inr (setActiveLine (active - 1) w))
         else if key e = ''l'' then (preventDefault e, moveCursorForwards w)
         else if key e = ''W'' then (preventDefault e, jumpToNextWORD ws None None w)
         else (preventDefault e, Inr w))"

definition handleKeydown ::
    "(char \<Rightarrow> bool) \<Rightarrow> KeyboardEvent \<Rightarrow> world \<Rightarrow> KeyboardEvent \<times> (error + world)" where
  "handleKeydown ws e w =
     (if mode (info w) = Normal then normalReducer ws e w else insertReducer e w)"

section \<open>Notions the properties are stated with\<close>

text \<open>The text nodes under a list of nodes, in document order, each with its identity.\<close>

fun text_nodes :: "node list \<Rightarrow> (nat \<times> string) list" where
  "text_nodes [] = []"
| "text_nodes (TextNode t s # ns) = (t, s) # text_nodes ns"
| "text_nodes (ElementNode e cs # ns) = text_nodes cs @ text_nodes ns"


text \<open>The index that \<^verbatim>\<open>setActiveLine(idx)\<close> makes active in a registry of \<open>n\<close> lines,
  and the subscription that it removes.\<close>

definition clamped :: "int \<Rightarrow> nat \<Rightarrow> int" where
  "clamped idx n =
     (if idx \<ge> int n then (if int n - 1 < 0 then 0 else int n - 1)
      else if idx < 0 then 0 else idx)"

definition deactivated :: "world \<Rightarrow> nat set" where
  "deactivated w =
     (case line_at (lines (info w)) (active_line (info w)) of
        Some l \<Rightarrow> {node_id (element l)}
      | None \<Rightarrow> {})"

text \<open>The tracked lines whose surface holds a \<^verbatim>\<open>keydown\<close> subscription.\<close>

definition subscribed_lines :: "world \<Rightarrow> TrackedLine list" where
  "subscribed_lines w =
     filter (\<lambda>l. node_id (element l) \<in> listeners w) (lines (info w))"

text \<open>The registry's invariant on subscriptions: no surface is subscribed but the active
  line's.\<close>

definition only_active_subscribed :: "world \<Rightarrow> bool" where
  "only_active_subscribed w =
     (case line_at (lines (info w)) (active_line (info w)) of
        Some l \<Rightarrow> listeners w - {node_id (element l)} = {}
      | None \<Rightarrow> listeners w = {})"

text \<open>The linear offset read after a motion, or the motion's error.\<close>

definition offset_after :: "error + world \<Rightarrow> error + nat" where
  "offset_after r = (case r of Inl err \<Rightarrow> Inl err | Inr w' \<Rightarrow> getCursorIndex w')"

text \<open>Placing the selection at a linear offset of a surface that has the focus, and
  reading the offset back.\<close>

definition roundtrip :: "node \<Rightarrow> nat \<Rightarrow> world \<Rightarrow> error + nat" where
  "roundtrip S off w =
     offset_after (setCursorPosition (Some S) off (w\<lparr>activeElement := Some S\<rparr>))"

text \<open>A surface element whose children are text nodes, each a node of its own.\<close>

definition plain_surface :: "node \<Rightarrow> bool" where
  "plain_surface S =
     (isElement S \<and> list_all (\<lambda>n. isElement n = False) (childNodes S) \<and>
      distinct (map node_id (childNodes S)))"

section \<open>Example documents\<close>

definition keydown :: "string \<Rightarrow> KeyboardEvent" where
  "keydown k = \<lparr>key = k, defaultPrevented = False, propagationStopped = False\<rparr>"

text \<open>The state after \<^verbatim>\<open>initVimInfo\<close> and \<^verbatim>\<open>createInfoContainer\<close>, before any surface is
  found.\<close>

definition blank :: world where
  "blank =
     \<lparr>info = \<lparr>active_line = 0, cursor_position = 0, lines = [], mode = Normal\<rparr>,
      activeElement = None, selection = None, listeners = {},
      vim_mode = Some ''-- NORMAL --''\<rparr>"

text \<open>Four surfaces of one text node each, and a surface
  \<^verbatim>\<open><div><b><i>ab</i></b>xy</div>\<close> with nested elements.\<close>

definition line_ab :: node where
  "line_ab = ElementNode 10 [TextNode 11 ''ab'']"

definition line_next :: node where
  "line_next = ElementNode 20 [TextNode 21 ''  next'']"

definition line_hello_world :: node where
  "line_hello_world = ElementNode 30 [TextNode 31 ''hello world'']"

definition line_hello :: node where
  "line_hello = ElementNode 40 [TextNode 41 ''hello'']"

definition nested :: node where
  "nested = ElementNode 50 [ElementNode 51 [ElementNode 52 [TextNode 53 ''ab'']],
                            TextNode 54 ''xy'']"

text \<open>A surface \<^verbatim>\<open><div><br>ab</div>\<close> that begins with an element without children.\<close>

definition with_break :: node where
  "with_break = ElementNode 60 [ElementNode 61 [], TextNode 62 ''ab'']"

text \<open>A document in which the surface \<open>S\<close> has the focus and the cursor is at offset \<open>k\<close>
  of the text node \<open>t\<close>.\<close>

definition with_cursor :: "node \<Rightarrow> nat \<Rightarrow> nat \<Rightarrow> world" where
  "with_cursor S t k = blank\<lparr>activeElement := Some S, selection := Some (t, k)\<rparr>"

text \<open>Two surfaces are found, \<^verbatim>\<open>j\<close> moves to the second, and then the host inserts a
  block above them and the observer refreshes the registry.\<close>

definition two_lines :: world where
  "two_lines = setLines [line_ab, line_next] blank"

definition second_line_active :: world where
  "second_line_active = setActiveLine 1 two_lines"

definition refreshed :: world where
  "refreshed = setLines [line_hello, line_ab, line_next] second_line_active"

text \<open>The registry holds \<^verbatim>\<open>ab\<close> and \<^verbatim>\<open>  next\<close>, and the cursor is at the end of the first
  line.\<close>

definition at_end_of_first :: world where
  "at_end_of_first = two_lines\<lparr>selection := Some (11, 2)\<rparr>"

section \<open>The mode state machine\<close>

lemma initVimInfo_blank: "initVimInfo blank = blank"
  by (simp add: initVimInfo_def blank_def)

lemma getModeText_Insert: "getModeText Insert = ''-- INSERT --''"
  by code_simp

lemma getModeText_Normal: "getModeText Normal = ''-- NORMAL --''"
  by code_simp

text \<open>
  Claim C6. The key handler follows the transition table. In normal mode the keys
  \<^verbatim>\<open>a\<close> and \<^verbatim>\<open>i\<close> suppress the event's default behaviour, set the mode to insert,
  and the indicator, when the document has one, reads \<^verbatim>\<open>-- INSERT --\<close>. In insert mode
  \<^verbatim>\<open>Escape\<close> suppresses the event, sets the mode to normal, and the indicator reads
  \<^verbatim>\<open>-- NORMAL --\<close>. Any other key in insert mode leaves the event and the whole state as
  they are.
\<close>

theorem mode_transition_table:
  "(mode (info w) = Normal \<and> (key e = ''a'' \<or> key e = ''i'') \<longrightarrow>
      defaultPrevented (fst (handleKeydown ws e w)) \<and>
      snd (handleKeydown ws e w) =
        Inr (updateInfoContainer (w\<lparr>info := (info w)\<lparr>mode := Insert\<rparr>\<rparr>)) \<and>
      mode (info (updateInfoContainer (w\<lparr>info := (info w)\<lparr>mode := Insert\<rparr>\<rparr>))) = Insert \<and>
      vim_mode (updateInfoContainer (w\<lparr>info := (info w)\<lparr>mode := Insert\<rparr>\<rparr>)) =
        map_option (\<lambda>t. ''-- INSERT --'') (vim_mode w)) \<and>
   (mode (info w) = Insert \<and> key e = ''Escape'' \<longrightarrow>
      defaultPrevented (fst (handleKeydown ws e w)) \<and>
      snd (handleKeydown ws e w) =
        Inr (updateInfoContainer (w\<lparr>info := (info w)\<lparr>mode := Normal\<rparr>\<rparr>)) \<and>
      mode (info (updateInfoContainer (w\<lparr>info := (info w)\<lparr>mode := Normal\<rparr>\<rparr>))) = Normal \<and>
      vim_mode (updateInfoContainer (w\<lparr>info := (info w)\<lparr>mode := Normal\<rparr>\<rparr>)) =
        map_option (\<lambda>t. ''-- NORMAL --'') (vim_mode w)) \<and>
   (mode (info w) = Insert \<and> key e \<noteq> ''Escape'' \<longrightarrow>
      handleKeydown ws e w = (e, Inr w))"
  by (cases "vim_mode w")
     (simp_all add: handleKeydown_def normalReducer_def insertReducer_def preventDefault_def
        stopPropagation_def updateInfoContainer_def getModeText_Insert getModeText_Normal)

theorem mode_transition_table_witness:
  "handleKeydown is_space (keydown ''i'') blank =
     (preventDefault (keydown ''i''),
      Inr (blank\<lparr>info := (info blank)\<lparr>mode := Insert\<rparr>, vim_mode := Some ''-- INSERT --''\<rparr>)) \<and>
   handleKeydown is_space (keydown ''Escape'')
       (blank\<lparr>info := (info blank)\<lparr>mode := Insert\<rparr>, vim_mode := Some ''-- INSERT --''\<rparr>) =
     (stopPropagation (preventDefault (keydown ''Escape'')), Inr blank) \<and>
   handleKeydown is_space (keydown ''x'')
       (blank\<lparr>info := (info blank)\<lparr>mode := Insert\<rparr>\<rparr>) =
     (keydown ''x'', Inr (blank\<lparr>info := (info blank)\<lparr>mode := Insert\<rparr>\<rparr>))"
  using mode_transition_table [of blank "keydown ''i''" is_space]
    mode_transition_table
      [of "blank\<lparr>info := (info blank)\<lparr>mode := Insert\<rparr>, vim_mode := Some ''-- INSERT --''\<rparr>"
        "keydown ''Escape''" is_space]
    mode_transition_table
      [of "blank\<lparr>info := (info blank)\<lparr>mode := Insert\<rparr>\<rparr>" "keydown ''x''" is_space]
  by (simp add: blank_def keydown_def handleKeydown_def normalReducer_def insertReducer_def
        preventDefault_def stopPropagation_def updateInfoContainer_def getModeText_Insert
        getModeText_Normal)

text \<open>
  Claim C10. \<^verbatim>\<open>normalReducer\<close> calls \<^verbatim>\<open>preventDefault\<close> on every key event, the keys
  with no bound action included, whatever the action then does; so the handler
  suppresses the default behaviour of every key delivered in normal mode.
\<close>

theorem normal_mode_prevents_default:
  "defaultPrevented (fst (normalReducer ws e w)) \<and>
   (mode (info w) = Normal \<longrightarrow> defaultPrevented (fst (handleKeydown ws e w)))"
  by (simp add: handleKeydown_def normalReducer_def preventDefault_def Let_def)

theorem normal_mode_prevents_default_witness:
  "mode (info blank) = Normal \<and>
   defaultPrevented (fst (handleKeydown is_space (keydown ''x'') blank)) \<and>
   snd (handleKeydown is_space (keydown ''x'') blank) = Inr blank"
  using normal_mode_prevents_default [of is_space "keydown ''x''" blank]
  by (simp add: blank_def keydown_def handleKeydown_def normalReducer_def)

section \<open>The cursor position model: offsets past the text\<close>

lemma setCursorPosition_loop_beyond:
  "i + length (concat (map textContent ns)) < index \<Longrightarrow>
   setCursorPosition_loop ns index i w = w"
  by (induction ns index i w rule: setCursorPosition_loop.induct) auto

text \<open>
  Claim C5, as the code has it. For an offset greater than the length of the surface's
  text, \<^verbatim>\<open>setCursorPosition\<close> finds no node in range and returns with the selection, and
  the rest of the state, as they were: the offset is not clamped to the end of the text,
  and no error is raised.
\<close>

theorem setCursorPosition_beyond_text_is_noop:
  "length (textContent S) < off \<Longrightarrow> setCursorPosition (Some S) off w = Inr w"
  by (cases S) (simp_all add: setCursorPosition_def setCursorPosition_loop_beyond)

theorem setCursorPosition_beyond_text_is_noop_witness:
  "length (textContent line_ab) < 10 \<and>
   setCursorPosition (Some line_ab) 10 (blank\<lparr>selection := Some (11, 1)\<rparr>) =
     Inr (blank\<lparr>selection := Some (11, 1)\<rparr>)"
  using setCursorPosition_beyond_text_is_noop
          [of line_ab 10 "blank\<lparr>selection := Some (11, 1)\<rparr>"]
  by (simp add: line_ab_def)

text \<open>
  Claim C5 as the spec states it fails: on the surface \<^verbatim>\<open><div>ab</div>\<close> with the
  cursor at offset 1, placing the selection at offset 10 leaves it at offset 1 of the
  text node, and the offset read back is 1, not the text length 2.
\<close>

theorem setCursorPosition_does_not_clamp:
  "length (textContent line_ab) = 2 \<and>
   map_sum id selection
     (setCursorPosition (Some line_ab) 10 (blank\<lparr>selection := Some (11, 1)\<rparr>)) =
     Inr (Some (11, 1)) \<and>
   roundtrip line_ab 10 (blank\<lparr>selection := Some (11, 1)\<rparr>) = Inr 1"
  by (simp add: line_ab_def blank_def roundtrip_def offset_after_def setCursorPosition_def getCursorIndex_def
        checkElementNode_def)

section \<open>The cursor position model: the round trip\<close>

text \<open>
  Claim C1, evaluated on the surface \<^verbatim>\<open><div><b><i>ab</i></b>xy</div>\<close>, whose text
  has length 4. Placing the selection at offset 1 puts it at offset 1 of the text node
  \<^verbatim>\<open>ab\<close>. Reading it back gives 3: the walk of \<^verbatim>\<open><i>\<close> finds the node and returns
  \<^verbatim>\<open>true\<close>, the walk of \<^verbatim>\<open><b>\<close> breaks out of its loop and returns \<^verbatim>\<open>false\<close>, and
  the walk of the surface goes on and adds the length of \<^verbatim>\<open>xy\<close>. And on
  \<^verbatim>\<open><div><br>ab</div>\<close> with the cursor at offset 2, placing the selection at offset 0
  descends into \<^verbatim>\<open><br>\<close>, which has no child to select, and stops: the offset read back
  is still 2.
\<close>

theorem roundtrip_nested_reads_3:
  "length (textContent nested) = 4 \<and>
   map_sum id selection
     (setCursorPosition (Some nested) 1 (blank\<lparr>activeElement := Some nested\<rparr>)) =
     Inr (Some (53, 1)) \<and>
   roundtrip nested 1 blank = Inr 3 \<and>
   roundtrip with_break 0 (with_cursor with_break 62 2) = Inr 2"
  by (simp add: nested_def with_break_def with_cursor_def blank_def roundtrip_def
        offset_after_def setCursorPosition_def getCursorIndex_def checkElementNode_def)

section \<open>Character motions\<close>

lemma text_nodes_append [simp]:
  "text_nodes (xs @ ys) = text_nodes xs @ text_nodes ys"
  by (induction xs rule: text_nodes.induct) auto





section \<open>The line registry: subscriptions\<close>

lemma line_at_Nil [simp]: "line_at [] k = None"
  by (simp add: line_at_def)

lemma setActiveLine_empty: "lines (info w) = [] \<Longrightarrow> setActiveLine i w = w"
  by (simp add: setActiveLine_def Let_def)

lemma clamped_range:
  "0 < n \<Longrightarrow> 0 \<le> clamped i n \<and> clamped i n < int n"
  by (simp add: clamped_def)

lemma line_at_clamped:
  "ls \<noteq> [] \<Longrightarrow> line_at ls (clamped i (length ls)) = Some (ls ! nat (clamped i (length ls)))"
  using clamped_range [of "length ls" i] by (simp add: line_at_def)

lemma setActiveLine_nonempty:
  assumes "lines (info w) \<noteq> []"
  shows "setActiveLine i w =
    w\<lparr>activeElement := Some (element (lines (info w) ! nat (clamped i (length (lines (info w)))))),
      listeners := insert (node_id (element (lines (info w) ! nat (clamped i (length (lines (info w)))))))
                     (listeners w - deactivated w),
      info := (info w)\<lparr>active_line := clamped i (length (lines (info w)))\<rparr>\<rparr>"
proof -
  let ?ls = "lines (info w)"
  have c: "(let i0 = (if i \<ge> int (length ?ls) then int (length ?ls) - 1 else i)
            in if i0 < 0 then 0 else i0) = clamped i (length ?ls)"
    by (simp add: clamped_def Let_def)
  have l: "line_at ?ls (clamped i (length ?ls)) = Some (?ls ! nat (clamped i (length ?ls)))"
    using assms by (rule line_at_clamped)
  show ?thesis
  proof (cases "line_at ?ls (active_line (info w))")
    case None
    then show ?thesis
      unfolding setActiveLine_def getActiveLine_def
      using c l
      by (simp add: Let_def deactivated_def addEventListener_def click_def)
  next
    case (Some a)
    then show ?thesis
      unfolding setActiveLine_def getActiveLine_def
      using c l
      by (simp add: Let_def deactivated_def addEventListener_def click_def removeEventListener_def)
  qed
qed

lemma setActiveLine_idem: "setActiveLine i (setActiveLine i w) = setActiveLine i w"
proof (cases "lines (info w) = []")
  case True
  then show ?thesis by (simp add: setActiveLine_empty)
next
  case False
  let ?ls = "lines (info w)"
  let ?k = "clamped i (length ?ls)"
  let ?w = "setActiveLine i w"
  have w': "?w = w\<lparr>activeElement := Some (element (?ls ! nat ?k)),
      listeners := insert (node_id (element (?ls ! nat ?k))) (listeners w - deactivated w),
      info := (info w)\<lparr>active_line := ?k\<rparr>\<rparr>"
    using False by (rule setActiveLine_nonempty)
  have ls: "lines (info ?w) = ?ls" by (simp add: w')
  have d: "deactivated ?w = {node_id (element (?ls ! nat ?k))}"
    using line_at_clamped [OF False, of i] by (simp add: deactivated_def w')
  have "setActiveLine i ?w = ?w\<lparr>activeElement := Some (element (?ls ! nat ?k)),
      listeners := insert (node_id (element (?ls ! nat ?k))) (listeners ?w - deactivated ?w),
      info := (info ?w)\<lparr>active_line := ?k\<rparr>\<rparr>"
    using setActiveLine_nonempty [of ?w i] False ls by simp
  also have "\<dots> = ?w"
    unfolding d by (simp add: w')
  finally show ?thesis .
qed


lemma setActiveLine_lines: "lines (info (setActiveLine i w)) = lines (info w)"
  by (cases "lines (info w) = []") (simp_all add: setActiveLine_empty setActiveLine_nonempty)

lemma setActiveLine_listeners:
  assumes "only_active_subscribed w" and "lines (info w) \<noteq> []"
  shows "listeners (setActiveLine i w) =
         {node_id (element (lines (info w) ! nat (clamped i (length (lines (info w))))))}"
proof -
  from assms(1) have e: "listeners w - deactivated w = {}"
    by (simp add: only_active_subscribed_def deactivated_def split: option.splits)
  from assms(2) show ?thesis by (simp add: setActiveLine_nonempty e)
qed

lemma setActiveLine_keeps_invariant:
  assumes "only_active_subscribed w"
  shows "only_active_subscribed (setActiveLine i w)"
proof (cases "lines (info w) = []")
  case True
  with assms show ?thesis by (simp add: setActiveLine_empty)
next
  case False
  have "listeners (setActiveLine i w) =
         {node_id (element (lines (info w) ! nat (clamped i (length (lines (info w))))))}"
    using assms False by (rule setActiveLine_listeners)
  moreover have "active_line (info (setActiveLine i w)) = clamped i (length (lines (info w)))"
    using False by (simp add: setActiveLine_nonempty)
  ultimately show ?thesis
    using line_at_clamped [OF False, of i]
    by (simp add: only_active_subscribed_def setActiveLine_lines)
qed

lemma one_match:
  "distinct (map f xs) \<Longrightarrow> k < length xs \<Longrightarrow>
   length (filter (\<lambda>x. f x \<in> {f (xs ! k)}) xs) = 1"
proof (induction xs arbitrary: k)
  case Nil
  then show ?case by simp
next
  case (Cons a xs)
  show ?case
  proof (cases k)
    case 0
    from Cons.prems have "f a \<notin> f ` set xs" by simp
    then have "\<forall>x \<in> set xs. f x \<noteq> f a" by (metis imageI)
    then have "filter (\<lambda>x. f x \<in> {f a}) xs = []"
      by (simp add: filter_empty_conv)
    with 0 show ?thesis by simp
  next
    case (Suc j)
    with Cons.prems have j: "j < length xs" and d: "distinct (map f xs)"
      and "f a \<notin> f ` set xs" by auto
    then have "f a \<noteq> f (xs ! j)" by (metis imageI nth_mem)
    with Suc Cons.IH [OF d j] show ?thesis by simp
  qed
qed

lemma subscribed_after_setActiveLine:
  assumes inv: "only_active_subscribed w" and ne: "lines (info w) \<noteq> []"
    and d: "distinct (map (\<lambda>l. node_id (element l)) (lines (info w)))"
  shows "length (subscribed_lines (setActiveLine i w)) = 1"
proof -
  let ?ls = "lines (info w)"
  let ?k = "nat (clamped i (length ?ls))"
  have k: "?k < length ?ls"
    using clamped_range [of "length ?ls" i] ne by (simp add: nat_less_iff)
  have "listeners (setActiveLine i w) = {node_id (element (?ls ! ?k))}"
    using inv ne by (rule setActiveLine_listeners)
  then have "subscribed_lines (setActiveLine i w) =
      filter (\<lambda>l. node_id (element l) \<in> {node_id (element (?ls ! ?k))}) ?ls"
    by (simp add: subscribed_lines_def setActiveLine_lines)
  with one_match [OF d k] show ?thesis by simp
qed

lemma setActiveLine_active:
  "lines (info w) \<noteq> [] \<Longrightarrow>
   active_line (info (setActiveLine i w)) = clamped i (length (lines (info w)))"
  by (simp add: setActiveLine_nonempty)

lemma setActiveLine_twice_listeners:
  assumes "only_active_subscribed w" and "lines (info w) \<noteq> []"
  shows "listeners (setActiveLine i (setActiveLine i w)) =
         {node_id (element (lines (info (setActiveLine i (setActiveLine i w))) !
            nat (active_line (info (setActiveLine i (setActiveLine i w))))))}"
  using assms
  by (simp add: setActiveLine_idem setActiveLine_listeners setActiveLine_lines
      setActiveLine_active)

text \<open>
  Claim C9, as the code has it. Calling \<^verbatim>\<open>setActiveLine\<close> twice with the same index gives
  the state that one call gives: the navigation state, and the focus and the
  subscriptions too. On an empty registry the calls change nothing and no line holds a
  subscription. On a registry that is not empty, from a state in which no surface but the
  active line's is subscribed, that invariant holds after the two calls and exactly one
  surface, the active line's, is subscribed; so exactly one tracked line is, the surfaces
  of the registry being distinct.
\<close>

theorem setActiveLine_idempotent:
  "setActiveLine i (setActiveLine i w) = setActiveLine i w \<and>
   (lines (info w) = [] \<longrightarrow>
      setActiveLine i (setActiveLine i w) = w \<and>
      subscribed_lines (setActiveLine i (setActiveLine i w)) = []) \<and>
   (only_active_subscribed w \<and> lines (info w) \<noteq> [] \<longrightarrow>
      only_active_subscribed (setActiveLine i (setActiveLine i w)) \<and>
      listeners (setActiveLine i (setActiveLine i w)) =
        {node_id (element (lines (info (setActiveLine i (setActiveLine i w))) !
           nat (active_line (info (setActiveLine i (setActiveLine i w))))))}) \<and>
   (only_active_subscribed w \<and> lines (info w) \<noteq> [] \<and>
    distinct (map (\<lambda>l. node_id (element l)) (lines (info w))) \<longrightarrow>
      length (subscribed_lines (setActiveLine i (setActiveLine i w))) = 1)"
proof (intro conjI impI)
  show "setActiveLine i (setActiveLine i w) = setActiveLine i w"
    by (rule setActiveLine_idem)
next
  assume e: "lines (info w) = []"
  then show "setActiveLine i (setActiveLine i w) = w"
    by (simp add: setActiveLine_empty)
  with e show "subscribed_lines (setActiveLine i (setActiveLine i w)) = []"
    by (simp add: subscribed_lines_def)
next
  assume a: "only_active_subscribed w \<and> lines (info w) \<noteq> []"
  then show "only_active_subscribed (setActiveLine i (setActiveLine i w))"
    by (simp add: setActiveLine_keeps_invariant)
  from a show "listeners (setActiveLine i (setActiveLine i w)) =
        {node_id (element (lines (info (setActiveLine i (setActiveLine i w))) !
           nat (active_line (info (setActiveLine i (setActiveLine i w))))))}"
    by (simp add: setActiveLine_twice_listeners)
next
  assume "only_active_subscribed w \<and> lines (info w) \<noteq> [] \<and>
    distinct (map (\<lambda>l. node_id (element l)) (lines (info w)))"
  then show "length (subscribed_lines (setActiveLine i (setActiveLine i w))) = 1"
    by (simp add: setActiveLine_idem subscribed_after_setActiveLine)
qed

theorem setActiveLine_idempotent_witness:
  "only_active_subscribed two_lines \<and>
   lines (info two_lines) \<noteq> [] \<and>
   distinct (map (\<lambda>l. node_id (element l)) (lines (info two_lines))) \<and>
   setActiveLine 5 (setActiveLine 5 two_lines) = second_line_active \<and>
   setActiveLine 5 two_lines = second_line_active \<and>
   listeners (setActiveLine 5 (setActiveLine 5 two_lines)) = {20} \<and>
   map (\<lambda>l. node_id (element l)) (subscribed_lines (setActiveLine 5 (setActiveLine 5 two_lines))) = [20] \<and>
   lines (info blank) = [] \<and>
   setActiveLine 5 (setActiveLine 5 blank) = blank"
  using setActiveLine_idempotent [of 5 two_lines] setActiveLine_idempotent [of 5 blank]
  by (simp add: two_lines_def second_line_active_def setLines_def setActiveLine_def blank_def
      line_ab_def line_next_def line_at_def Let_def getActiveLine_def removeEventListener_def
      addEventListener_def click_def only_active_subscribed_def subscribed_lines_def)

text \<open>
  Claim C9 as the spec states it fails. On the empty registry no line holds a
  subscription after two calls of \<^verbatim>\<open>setActiveLine(0)\<close>. And in the state after the
  refresh, where the surfaces 10 and 20 are both subscribed, two calls of
  \<^verbatim>\<open>setActiveLine(1)\<close> remove and install the subscription of surface 10 and leave the
  one of surface 20: two tracked lines are subscribed.
\<close>

theorem setActiveLine_twice_not_exactly_one:
  "lines (info blank) = [] \<and>
   length (subscribed_lines (setActiveLine 0 (setActiveLine 0 blank))) = 0 \<and>
   map (node_id \<circ> element) (lines (info refreshed)) = [40, 10, 20] \<and>
   listeners refreshed = {10, 20} \<and>
   map (node_id \<circ> element) (subscribed_lines (setActiveLine 1 (setActiveLine 1 refreshed))) =
     [10, 20] \<and>
   length (subscribed_lines (setActiveLine 1 (setActiveLine 1 refreshed))) = 2"
  by (simp add: refreshed_def two_lines_def second_line_active_def setLines_def
      setActiveLine_def blank_def line_ab_def line_next_def line_hello_def line_at_def Let_def
      getActiveLine_def removeEventListener_def addEventListener_def click_def
      subscribed_lines_def insert_commute)

text \<open>
  Claim C2, evaluated on a refresh. The registry holds the surfaces 10 and 20; \<^verbatim>\<open>j\<close>
  makes the second one active, and only surface 20 is subscribed. The host then inserts
  a block above and \<^verbatim>\<open>setLines\<close> is called with the surfaces 40, 10, 20. It replaces
  \<^verbatim>\<open>lines\<close> first, so \<^verbatim>\<open>setActiveLine\<close> removes the subscription of the new
  \<^verbatim>\<open>lines[1]\<close>, surface 10, which has none, and subscribes surface 10: the surfaces
  10 and 20, both tracked lines, are subscribed together.
\<close>

theorem refresh_leaves_subscription:
  "snd (handleKeydown is_space (keydown ''j'') two_lines) = Inr second_line_active \<and>
   listeners second_line_active = {20} \<and>
   only_active_subscribed second_line_active \<and>
   map (\<lambda>l. node_id (element l)) (lines (info refreshed)) = [40, 10, 20] \<and>
   active_line (info refreshed) = 1 \<and>
   listeners refreshed = {10, 20} \<and>
   map (\<lambda>l. node_id (element l)) (subscribed_lines refreshed) = [10, 20]"
  by (simp add: refreshed_def two_lines_def second_line_active_def setLines_def
      setActiveLine_def blank_def keydown_def handleKeydown_def normalReducer_def
      line_ab_def line_next_def line_hello_def line_at_def Let_def getActiveLine_def
      removeEventListener_def addEventListener_def click_def subscribed_lines_def
      only_active_subscribed_def preventDefault_def insert_commute)

section \<open>Searching for whitespace\<close>

lemma search_none: "(\<forall>c \<in> set s. \<not> ws c) \<Longrightarrow> search ws s = - 1"
  by (induction s) auto

lemma search_first:
  "f < length s \<Longrightarrow> ws (s ! f) \<Longrightarrow> (\<forall>j < f. \<not> ws (s ! j)) \<Longrightarrow> search ws s = int f"
proof (induction s arbitrary: f)
  case Nil
  then show ?case by simp
next
  case (Cons c cs)
  show ?case
  proof (cases f)
    case 0
    with Cons.prems show ?thesis by simp
  next
    case (Suc g)
    with Cons.prems have "g < length cs" "ws (cs ! g)" "\<forall>j < g. \<not> ws (cs ! j)" "\<not> ws c"
      by auto
    with Cons.IH [of g] Suc show ?thesis by simp
  qed
qed

lemma search_slice_first:
  assumes "p \<le> f" and "f < length s" and "ws (s ! f)"
    and "\<forall>j. p \<le> j \<and> j < f \<longrightarrow> \<not> ws (s ! j)"
  shows "search ws (slice s p) = int (f - p)"
proof -
  have "f - p < length (drop p s)" using assms by simp
  moreover have "ws (drop p s ! (f - p))" using assms by simp
  moreover have "\<forall>j < f - p. \<not> ws (drop p s ! j)" using assms by auto
  ultimately show ?thesis unfolding slice_def by (rule search_first)
qed

lemma search_slice_none:
  assumes "\<forall>j. p \<le> j \<and> j < length s \<longrightarrow> \<not> ws (s ! j)"
  shows "search ws (slice s p) = - 1"
proof -
  have "\<forall>c \<in> set (drop p s). \<not> ws c"
  proof
    fix c assume "c \<in> set (drop p s)"
    then obtain j where "j < length (drop p s)" "c = drop p s ! j"
      by (metis in_set_conv_nth)
    with assms show "\<not> ws c" by simp
  qed
  then show ?thesis unfolding slice_def by (rule search_none)
qed

lemma jump_explicit_found:
  assumes "p \<le> f" and "f < length (innerText S)" and "ws (innerText S ! f)"
    and "\<forall>j. p \<le> j \<and> j < f \<longrightarrow> \<not> ws (innerText S ! j)"
  shows "jumpToNextWORD ws (Some S) (Some p) w = setCursorPosition (Some S) (f + 1) w"
proof -
  have "p + nat (int f - int p) = f" using assms by simp
  with assms search_slice_first [OF assms] show ?thesis
    by (simp add: jumpToNextWORD.simps Let_def)
qed

lemma jump_explicit_none:
  assumes "\<forall>j. p \<le> j \<and> j < length (innerText S) \<longrightarrow> \<not> ws (innerText S ! j)"
  shows "jumpToNextWORD ws (Some S) (Some p) w =
         setCursorPosition (Some S) (length (innerText S)) w"
  using search_slice_none [OF assms] by (simp add: jumpToNextWORD.simps Let_def)

lemma jump_default_found:
  assumes "activeElement w = Some S" and "getCursorIndex w = Inr p"
    and "p \<le> f" and "f < length (innerText S)" and "ws (innerText S ! f)"
    and "\<forall>j. p \<le> j \<and> j < f \<longrightarrow> \<not> ws (innerText S ! j)"
  shows "jumpToNextWORD ws None None w = setCursorPosition (Some S) (f + 1) w"
proof -
  have "p + nat (int f - int p) = f" using assms by simp
  with assms search_slice_first [OF assms(3-6)] show ?thesis
    by (simp add: jumpToNextWORD.simps Let_def)
qed

lemma jump_default_none:
  assumes "activeElement w = Some S" and "getCursorIndex w = Inr p"
    and "\<forall>j. p \<le> j \<and> j < length (innerText S) \<longrightarrow> \<not> ws (innerText S ! j)"
    and "line_at (lines (info w)) (active_line (info w) + 1) = None"
  shows "jumpToNextWORD ws None None w =
         setCursorPosition (Some S) (length (innerText S)) w"
  using assms search_slice_none [OF assms(3)]
  by (simp add: jumpToNextWORD.simps Let_def getLines_def getActiveLine_def)


section \<open>The round trip on plain surfaces\<close>

lemma plain_loop_roundtrip:
  assumes "list_all (\<lambda>n. isElement n = False) ns" and "distinct (map node_id ns)"
    and "ns \<noteq> []" and "i \<le> index" and "index \<le> i + length (concat (map textContent ns))"
  shows "\<exists>t k. setCursorPosition_loop ns index i w = w\<lparr>selection := Some (t, k)\<rparr> \<and>
           t \<in> node_id ` set ns \<and> checkElementNode_loop t k ns i = (True, index)"
  using assms
proof (induction ns arbitrary: i)
  case Nil
  then show ?case by simp
next
  case (Cons n ns)
  from Cons.prems(1) obtain t s where n: "n = TextNode t s"
    by (cases n) simp_all
  show ?case
  proof (cases "index \<le> i + length s")
    case True
    with Cons.prems(4) n have
      "setCursorPosition_loop (n # ns) index i w = w\<lparr>selection := Some (t, index - i)\<rparr> \<and>
       t \<in> node_id ` set (n # ns) \<and>
       checkElementNode_loop t (index - i) (n # ns) i = (True, index)"
      by simp
    then show ?thesis by blast
  next
    case False
    with Cons.prems(5) n have ne: "ns \<noteq> []" by auto
    from Cons.prems n have a: "list_all (\<lambda>n. isElement n = False) ns" "distinct (map node_id ns)"
      and t: "t \<notin> node_id ` set ns" by simp_all
    from False Cons.prems(5) n have b: "i + length s \<le> index"
      "index \<le> (i + length s) + length (concat (map textContent ns))" by simp_all
    from Cons.IH [OF a ne b] obtain t' k where
      r: "setCursorPosition_loop ns index (i + length s) w = w\<lparr>selection := Some (t', k)\<rparr>"
         "t' \<in> node_id ` set ns" "checkElementNode_loop t' k ns (i + length s) = (True, index)"
      by blast
    from r(2) t have "t \<noteq> t'" by blast
    with r n False have
      "setCursorPosition_loop (n # ns) index i w = w\<lparr>selection := Some (t', k)\<rparr> \<and>
       t' \<in> node_id ` set (n # ns) \<and>
       checkElementNode_loop t' k (n # ns) i = (True, index)"
      by simp
    then show ?thesis by blast
  qed
qed

lemma plain_surface_roundtrip:
  assumes "plain_surface S" and "activeElement w = Some S" and "off \<le> length (textContent S)"
  shows "offset_after (setCursorPosition (Some S) off w) = Inr off"
proof -
  from assms(1) obtain e cs where S: "S = ElementNode e cs"
    by (cases S) (simp_all add: plain_surface_def)
  show ?thesis
  proof (cases "cs = []")
    case True
    with S assms show ?thesis
      by (simp add: offset_after_def setCursorPosition_def getCursorIndex_def
          checkElementNode_def split: option.splits)
  next
    case False
    from assms(1) S have "list_all (\<lambda>n. isElement n = False) cs" "distinct (map node_id cs)"
      by (simp_all add: plain_surface_def)
    from plain_loop_roundtrip [OF this False, of 0 off w] assms(3) S
    obtain t k where "setCursorPosition_loop cs off 0 w = w\<lparr>selection := Some (t, k)\<rparr>"
      "checkElementNode_loop t k cs 0 = (True, off)" by auto
    with S assms(2) show ?thesis
      by (simp add: offset_after_def setCursorPosition_def getCursorIndex_def
          checkElementNode_def)
  qed
qed


lemma setCursorPosition_loop_selection_only:
  "\<exists>sel. setCursorPosition_loop ns index i w = w\<lparr>selection := sel\<rparr>"
proof (induction ns index i w rule: setCursorPosition_loop.induct)
  case (1 index i w)
  have "w = w\<lparr>selection := selection w\<rparr>" by simp
  then show ?case by (metis setCursorPosition_loop.simps(1))
next
  case (2 e cs ns index i w)
  then show ?case by simp
next
  case (3 t s ns index i w)
  then show ?case by (cases "index \<ge> i \<and> index \<le> i + length s") auto
qed

lemma setCursorPosition_keeps:
  "setCursorPosition (Some S) index w = Inr (setCursorPosition_loop (childNodes S) index 0 w) \<and>
   info (setCursorPosition_loop (childNodes S) index 0 w) = info w \<and>
   activeElement (setCursorPosition_loop (childNodes S) index 0 w) = activeElement w \<and>
   listeners (setCursorPosition_loop (childNodes S) index 0 w) = listeners w"
proof -
  obtain sel where "setCursorPosition_loop (childNodes S) index 0 w = w\<lparr>selection := sel\<rparr>"
    using setCursorPosition_loop_selection_only by blast
  then show ?thesis by (simp add: setCursorPosition_def)
qed

section \<open>Word-forward within a surface\<close>

text \<open>
  Claim C4. Let \<open>p\<close> be the starting offset: the one passed, or the cursor's on the
  active surface. If \<open>f\<close> is the index of the first whitespace character at or after
  \<open>p\<close>, word-forward calls \<^verbatim>\<open>setCursorPosition\<close> on the surface with \<open>f + 1\<close>; if no
  whitespace occurs at or after \<open>p\<close>, and the call is on a given surface or the
  registry has no next line, it calls it with the text length. On a plain surface the
  offset read afterwards is that offset. On \<^verbatim>\<open>hello world\<close> from 0 that is 6, on
  \<^verbatim>\<open>hello\<close> from 0 it is 5.
\<close>

theorem word_forward_within_surface:
  "(p \<le> f \<and> f < length (innerText S) \<and> ws (innerText S ! f) \<and>
    (\<forall>j. p \<le> j \<and> j < f \<longrightarrow> \<not> ws (innerText S ! j)) \<longrightarrow>
      jumpToNextWORD ws (Some S) (Some p) w = setCursorPosition (Some S) (f + 1) w \<and>
      (activeElement w = Some S \<and> getCursorIndex w = Inr p \<longrightarrow>
         jumpToNextWORD ws None None w = setCursorPosition (Some S) (f + 1) w \<and>
         (plain_surface S \<longrightarrow>
            offset_after (jumpToNextWORD ws None None w) = Inr (f + 1)))) \<and>
   ((\<forall>j. p \<le> j \<and> j < length (innerText S) \<longrightarrow> \<not> ws (innerText S ! j)) \<longrightarrow>
      jumpToNextWORD ws (Some S) (Some p) w =
        setCursorPosition (Some S) (length (innerText S)) w \<and>
      (activeElement w = Some S \<and> getCursorIndex w = Inr p \<and>
       line_at (lines (info w)) (active_line (info w) + 1) = None \<longrightarrow>
         jumpToNextWORD ws None None w =
           setCursorPosition (Some S) (length (innerText S)) w \<and>
         (plain_surface S \<longrightarrow>
            offset_after (jumpToNextWORD ws None None w) = Inr (length (innerText S)))))"
proof (intro conjI impI)
  assume a: "p \<le> f \<and> f < length (innerText S) \<and> ws (innerText S ! f) \<and>
    (\<forall>j. p \<le> j \<and> j < f \<longrightarrow> \<not> ws (innerText S ! j))"
  then show "jumpToNextWORD ws (Some S) (Some p) w = setCursorPosition (Some S) (f + 1) w"
    using jump_explicit_found [of p f S ws w] by blast
  assume b: "activeElement w = Some S \<and> getCursorIndex w = Inr p"
  with a show j: "jumpToNextWORD ws None None w = setCursorPosition (Some S) (f + 1) w"
    using jump_default_found [of w S p f ws] by blast
  assume "plain_surface S"
  moreover from a have "f + 1 \<le> length (textContent S)" by (simp add: innerText_def)
  ultimately show "offset_after (jumpToNextWORD ws None None w) = Inr (f + 1)"
    using b j plain_surface_roundtrip by simp
next
  assume a: "\<forall>j. p \<le> j \<and> j < length (innerText S) \<longrightarrow> \<not> ws (innerText S ! j)"
  then show "jumpToNextWORD ws (Some S) (Some p) w =
      setCursorPosition (Some S) (length (innerText S)) w"
    by (rule jump_explicit_none)
  assume b: "activeElement w = Some S \<and> getCursorIndex w = Inr p \<and>
       line_at (lines (info w)) (active_line (info w) + 1) = None"
  with a show j: "jumpToNextWORD ws None None w =
      setCursorPosition (Some S) (length (innerText S)) w"
    using jump_default_none [of w S p ws] by blast
  assume "plain_surface S"
  then show "offset_after (jumpToNextWORD ws None None w) = Inr (length (innerText S))"
    using b j plain_surface_roundtrip by (simp add: innerText_def)
qed

lemma hello_world_prefix: "\<forall>j. 0 \<le> j \<and> j < 5 \<longrightarrow> \<not> is_space (innerText line_hello_world ! j)"
proof (intro allI impI)
  fix j :: nat
  assume "0 \<le> j \<and> j < 5"
  then have "j = 0 \<or> j = 1 \<or> j = 2 \<or> j = 3 \<or> j = 4" by arith
  then show "\<not> is_space (innerText line_hello_world ! j)"
    by (auto simp: innerText_def line_hello_world_def is_space_def)
qed

lemma hello_no_space: "\<forall>j. 0 \<le> j \<and> j < length (innerText line_hello) \<longrightarrow> \<not> is_space (innerText line_hello ! j)"
proof (intro allI impI)
  fix j :: nat
  assume "0 \<le> j \<and> j < length (innerText line_hello)"
  then have "j = 0 \<or> j = 1 \<or> j = 2 \<or> j = 3 \<or> j = 4"
    by (simp add: innerText_def line_hello_def) arith
  then show "\<not> is_space (innerText line_hello ! j)"
    by (auto simp: innerText_def line_hello_def is_space_def)
qed

theorem word_forward_within_surface_witness:
  "jumpToNextWORD is_space None None (with_cursor line_hello_world 31 0) =
     Inr (with_cursor line_hello_world 31 6) \<and>
   offset_after (jumpToNextWORD is_space None None (with_cursor line_hello_world 31 0)) = Inr 6 \<and>
   jumpToNextWORD is_space None None (with_cursor line_hello 41 0) =
     Inr (with_cursor line_hello 41 5) \<and>
   offset_after (jumpToNextWORD is_space None None (with_cursor line_hello 41 0)) = Inr 5"
proof -
  have g: "getCursorIndex (with_cursor line_hello_world 31 0) = Inr 0"
    "getCursorIndex (with_cursor line_hello 41 0) = Inr 0"
    by (simp_all add: with_cursor_def getCursorIndex_def checkElementNode_def
        line_hello_world_def line_hello_def)
  have s: "is_space (innerText line_hello_world ! 5)"
    by (simp add: innerText_def line_hello_world_def is_space_def)
  have pl: "plain_surface line_hello_world" "plain_surface line_hello"
    by (simp_all add: plain_surface_def line_hello_world_def line_hello_def)
  have n: "line_at (lines (info (with_cursor line_hello 41 0)))
      (active_line (info (with_cursor line_hello 41 0)) + 1) = None"
    by (simp add: with_cursor_def blank_def line_at_def)
  have a: "activeElement (with_cursor line_hello_world 31 0) = Some line_hello_world"
    "activeElement (with_cursor line_hello 41 0) = Some line_hello"
    by (simp_all add: with_cursor_def)
  have l: "(5::nat) < length (innerText line_hello_world)" "length (innerText line_hello) = 5"
    by (simp_all add: innerText_def line_hello_world_def line_hello_def)
  have w6: "setCursorPosition (Some line_hello_world) 6 (with_cursor line_hello_world 31 0) =
      Inr (with_cursor line_hello_world 31 6)"
    by (simp add: setCursorPosition_def with_cursor_def line_hello_world_def)
  have w5: "setCursorPosition (Some line_hello) 5 (with_cursor line_hello 41 0) =
      Inr (with_cursor line_hello 41 5)"
    by (simp add: setCursorPosition_def with_cursor_def line_hello_def)
  have z: "(0::nat) \<le> 5" by simp
  have "jumpToNextWORD is_space None None (with_cursor line_hello_world 31 0) =
          setCursorPosition (Some line_hello_world) (5 + 1) (with_cursor line_hello_world 31 0) \<and>
        offset_after (jumpToNextWORD is_space None None (with_cursor line_hello_world 31 0)) =
          Inr (5 + 1)"
    using word_forward_within_surface
            [of 0 5 line_hello_world is_space "with_cursor line_hello_world 31 0"]
          hello_world_prefix g(1) s pl(1) a(1) l(1) z
    by blast
  moreover
  have "jumpToNextWORD is_space None None (with_cursor line_hello 41 0) =
          setCursorPosition (Some line_hello) (length (innerText line_hello))
            (with_cursor line_hello 41 0) \<and>
        offset_after (jumpToNextWORD is_space None None (with_cursor line_hello 41 0)) =
          Inr (length (innerText line_hello))"
    using word_forward_within_surface
            [of 0 5 line_hello is_space "with_cursor line_hello 41 0"]
          hello_no_space g(2) pl(2) a(2) n
    by blast
  ultimately show ?thesis by (auto simp add: w6 w5 l(2))
qed

section \<open>Word-forward across lines\<close>

lemma setActiveLine_next:
  assumes "line_at (lines (info w)) (active_line (info w) + 1) = Some l"
  shows "info (setActiveLine (active_line (info w) + 1) w) =
           (info w)\<lparr>active_line := active_line (info w) + 1\<rparr> \<and>
         activeElement (setActiveLine (active_line (info w) + 1) w) = Some (element l)"
proof -
  let ?ls = "lines (info w)"
  let ?a = "active_line (info w) + 1"
  from assms have r: "0 \<le> ?a" "?a < int (length ?ls)" "l = ?ls ! nat ?a"
    by (simp_all add: line_at_def split: if_splits)
  then have ne: "?ls \<noteq> []" by auto
  from r have c: "clamped ?a (length ?ls) = ?a" by (simp add: clamped_def)
  from r show ?thesis
    by (simp add: setActiveLine_nonempty [OF ne] c)
qed

text \<open>
  Claim C3, as the code has it. Word-forward from the active surface, with no whitespace
  from the cursor to the end of its text, into a next line whose text begins with
  whitespace: the next line becomes active (\<^verbatim>\<open>active_line\<close> advances by 1) and the motion
  runs again on it from offset 0, where it finds the whitespace at index 0 and calls
  \<^verbatim>\<open>setCursorPosition\<close> with offset 1, one past the first whitespace character, whatever
  follows; on a plain surface the offset read afterwards is 1.
\<close>

theorem word_forward_across_lines:
  assumes "activeElement w = Some S" and "getCursorIndex w = Inr p"
    and "\<forall>j. p \<le> j \<and> j < length (innerText S) \<longrightarrow> \<not> ws (innerText S ! j)"
    and "line_at (lines (info w)) (active_line (info w) + 1) = Some l"
    and "innerText (element l) = c # cs" and "ws c"
  shows "jumpToNextWORD ws None None w =
           setCursorPosition (Some (element l)) 1 (setActiveLine (active_line (info w) + 1) w) \<and>
         map_sum id (active_line \<circ> info) (jumpToNextWORD ws None None w) =
           Inr (active_line (info w) + 1) \<and>
         (plain_surface (element l) \<longrightarrow>
            offset_after (jumpToNextWORD ws None None w) = Inr 1)"
proof -
  let ?w1 = "setActiveLine (active_line (info w) + 1) w"
  have t: "test ws (first_char (innerText (element l)))"
    using assms(5,6) by (simp add: test_def first_char_def)
  have s0: "search ws (slice (innerText (element l)) 0) = 0"
    using assms(5,6) by (simp add: slice_def)
  have inner: "jumpToNextWORD ws (Some (element l)) (Some 0) ?w1 =
      setCursorPosition (Some (element l)) 1 ?w1"
    using assms(5) s0 by (simp add: jumpToNextWORD.simps [of ws "Some (element l)"] Let_def)
  have j: "jumpToNextWORD ws None None w = setCursorPosition (Some (element l)) 1 ?w1"
    using assms(1,2,4) search_slice_none [OF assms(3)] t inner
    by (simp add: jumpToNextWORD.simps [of ws None] Let_def getLines_def getActiveLine_def)
  have n: "info ?w1 = (info w)\<lparr>active_line := active_line (info w) + 1\<rparr>"
    "activeElement ?w1 = Some (element l)"
    using setActiveLine_next [OF assms(4)] by simp_all
  have a: "map_sum id (active_line \<circ> info) (jumpToNextWORD ws None None w) =
      Inr (active_line (info w) + 1)"
    using setCursorPosition_keeps [of "element l" 1 ?w1] n by (simp add: j)
  have r: "plain_surface (element l) \<longrightarrow> offset_after (jumpToNextWORD ws None None w) = Inr 1"
  proof
    assume "plain_surface (element l)"
    moreover have "1 \<le> length (textContent (element l))"
      using assms(5) by (simp add: innerText_def)
    ultimately show "offset_after (jumpToNextWORD ws None None w) = Inr 1"
      using n(2) plain_surface_roundtrip [of "element l" ?w1 1] by (simp add: j)
  qed
  from j a r show ?thesis by blast
qed

lemma second_line_active_eq:
  "second_line_active =
     \<lparr>info = \<lparr>active_line = 1, cursor_position = 0,
               lines = [\<lparr>line_cursor_position = 0, element = line_ab\<rparr>,
                        \<lparr>line_cursor_position = 0, element = line_next\<rparr>],
               mode = Normal\<rparr>,
      activeElement = Some line_next, selection = None, listeners = {20},
      vim_mode = Some ''-- NORMAL --''\<rparr>"
  by (simp add: second_line_active_def two_lines_def setLines_def setActiveLine_def blank_def
      line_at_def Let_def getActiveLine_def removeEventListener_def addEventListener_def
      click_def line_ab_def line_next_def)

theorem word_forward_across_lines_witness:
  "jumpToNextWORD is_space None None at_end_of_first =
     Inr (second_line_active\<lparr>selection := Some (21, 1)\<rparr>) \<and>
   map_sum id (active_line \<circ> info) (jumpToNextWORD is_space None None at_end_of_first) = Inr 1 \<and>
   offset_after (jumpToNextWORD is_space None None at_end_of_first) = Inr 1"
proof -
  have tl: "two_lines =
     \<lparr>info = \<lparr>active_line = 0, cursor_position = 0,
               lines = [\<lparr>line_cursor_position = 0, element = line_ab\<rparr>,
                        \<lparr>line_cursor_position = 0, element = line_next\<rparr>],
               mode = Normal\<rparr>,
      activeElement = Some line_ab, selection = None, listeners = {10},
      vim_mode = Some ''-- NORMAL --''\<rparr>"
    by (simp add: two_lines_def setLines_def setActiveLine_def blank_def
      line_at_def Let_def getActiveLine_def removeEventListener_def addEventListener_def
      click_def line_ab_def)
  have h1: "activeElement at_end_of_first = Some line_ab"
    by (simp add: at_end_of_first_def tl)
  have h2: "getCursorIndex at_end_of_first = Inr 2"
    by (simp add: at_end_of_first_def tl getCursorIndex_def checkElementNode_def line_ab_def)
  have h3: "\<forall>j. 2 \<le> j \<and> j < length (innerText line_ab) \<longrightarrow> \<not> is_space (innerText line_ab ! j)"
    by (auto simp add: innerText_def line_ab_def)
  have h4: "line_at (lines (info at_end_of_first)) (active_line (info at_end_of_first) + 1) =
      Some \<lparr>line_cursor_position = 0, element = line_next\<rparr>"
    by (simp add: at_end_of_first_def tl line_at_def)
  have h5: "innerText (element \<lparr>line_cursor_position = 0, element = line_next\<rparr>) =
      CHR '' '' # '' next''"
    by (simp add: innerText_def line_next_def)
  have h6: "is_space (CHR '' '')" by (simp add: is_space_def)
  have pl: "plain_surface (element \<lparr>line_cursor_position = 0, element = line_next\<rparr>)"
    by (simp add: plain_surface_def line_next_def)
  have sa: "setActiveLine (active_line (info at_end_of_first) + 1) at_end_of_first =
      second_line_active\<lparr>selection := Some (11, 2)\<rparr>"
    by (simp add: at_end_of_first_def second_line_active_eq tl setActiveLine_def
      line_at_def Let_def getActiveLine_def removeEventListener_def addEventListener_def
      click_def line_ab_def line_next_def)
  have sc: "setCursorPosition (Some line_next) 1 (second_line_active\<lparr>selection := Some (11, 2)\<rparr>) =
      Inr (second_line_active\<lparr>selection := Some (21, 1)\<rparr>)"
    by (simp add: setCursorPosition_def line_next_def)
  note t = word_forward_across_lines [OF h1 h2 h3 h4 h5 h6]
  have e: "element \<lparr>line_cursor_position = 0, element = line_next\<rparr> = line_next"
    by simp
  have j: "jumpToNextWORD is_space None None at_end_of_first =
           setCursorPosition (Some line_next) 1
             (setActiveLine (active_line (info at_end_of_first) + 1) at_end_of_first)"
    using t e by metis
  have a: "map_sum id (active_line \<circ> info) (jumpToNextWORD is_space None None at_end_of_first) =
           Inr (active_line (info at_end_of_first) + 1)"
    using t by blast
  have r: "offset_after (jumpToNextWORD is_space None None at_end_of_first) = Inr 1"
    using t pl by blast
  have al: "active_line (info at_end_of_first) + 1 = 1"
    by (simp add: at_end_of_first_def tl)
  from j have "jumpToNextWORD is_space None None at_end_of_first =
      Inr (second_line_active\<lparr>selection := Some (21, 1)\<rparr>)"
    by (simp only: sa sc)
  with a r al show ?thesis by simp
qed

text \<open>
  Claim C3 as the spec states it fails: with the cursor at the end of \<^verbatim>\<open>ab\<close> and the next
  line \<^verbatim>\<open>  next\<close>, word-forward makes line 1 active and puts the cursor at offset 1 of
  its text node, not 2; the character there is the second space.
\<close>

theorem word_forward_lands_on_second_space:
  "innerText line_next = ''  next'' \<and>
   map_sum id (active_line \<circ> info) (jumpToNextWORD is_space None None at_end_of_first) = Inr 1 \<and>
   map_sum id selection (jumpToNextWORD is_space None None at_end_of_first) = Inr (Some (21, 1)) \<and>
   offset_after (jumpToNextWORD is_space None None at_end_of_first) = Inr 1 \<and>
   is_space (innerText line_next ! 1)"
  by (simp add: at_end_of_first_def two_lines_def setLines_def setActiveLine_def blank_def
      line_at_def Let_def getActiveLine_def getLines_def removeEventListener_def
      addEventListener_def click_def line_ab_def line_next_def jumpToNextWORD.simps
      getCursorIndex_def checkElementNode_def innerText_def slice_def test_def first_char_def
      is_space_def setCursorPosition_def offset_after_def)

section \<open>Failure semantics of the motions\<close>

















end
